theory Spec2Isabelle
  imports Main
begin

section \<open>Text primitives of the host language\<close>

text \<open>
  The schema file is read as text. The model is of ASCII text: the classes below are the
  ones the regular-expression engine and \<^verbatim>\<open>str.strip\<close> use on ASCII characters
  (\<^verbatim>\<open>\w\<close> is a letter, a digit or the underscore; \<^verbatim>\<open>\s\<close> is TAB, LF, VT, FF, CR,
  the four separators 0x1C..0x1F and the blank). On other characters the host's classes and
  its \<^verbatim>\<open>upper\<close> follow the Unicode tables (an accented letter is a word character, the
  no-break space is white space), which the model does not hold; every statement about a
  schema text below is about a text of ASCII characters, and says so.
\<close>

definition is_ascii :: "char \<Rightarrow> bool" where
  "is_ascii c \<longleftrightarrow> (of_char c :: nat) < 128"

definition is_word :: "char \<Rightarrow> bool" where
  "is_word c \<longleftrightarrow>
     (let n = (of_char c :: nat)
      in (48 \<le> n \<and> n \<le> 57) \<or> (65 \<le> n \<and> n \<le> 90) \<or> n = 95 \<or> (97 \<le> n \<and> n \<le> 122))"

definition is_space :: "char \<Rightarrow> bool" where
  "is_space c \<longleftrightarrow> (let n = (of_char c :: nat) in (9 \<le> n \<and> n \<le> 13) \<or> (28 \<le> n \<and> n \<le> 32))"

text \<open>The class \<^verbatim>\<open>[\w\(\)]\<close> of the column pattern's second group.\<close>

definition is_type_char :: "char \<Rightarrow> bool" where
  "is_type_char c \<longleftrightarrow> is_word c \<or> c = CHR ''('' \<or> c = CHR '')''"

definition upper_char :: "char \<Rightarrow> char" where
  "upper_char c =
     (let n = (of_char c :: nat) in if 97 \<le> n \<and> n \<le> 122 then char_of (n - 32) else c)"

definition lower_char :: "char \<Rightarrow> char" where
  "lower_char c =
     (let n = (of_char c :: nat) in if 65 \<le> n \<and> n \<le> 90 then char_of (n + 32) else c)"

text \<open>\<^verbatim>\<open>str.upper()\<close>, \<^verbatim>\<open>str.strip()\<close> and \<^verbatim>\<open>str.split(' ')[0]\<close>.\<close>

definition upper :: "string \<Rightarrow> string" where
  "upper s = map upper_char s"

definition strip :: "string \<Rightarrow> string" where
  "strip s = rev (dropWhile is_space (rev (dropWhile is_space s)))"

definition split_first :: "string \<Rightarrow> string" where
  "split_first s = takeWhile (\<lambda>c. c \<noteq> CHR '' '') s"

section \<open>The schema parser\<close>

datatype error = ValueError | KeyError

text \<open>
  The lazy group \<^verbatim>\<open>(.*?)\<close> followed by the literal \<^verbatim>\<open>\);\<close> under DOTALL: the text
  before the first occurrence of a closing parenthesis directly followed by a semicolon.
\<close>

fun until_close :: "string \<Rightarrow> string option" where
  "until_close [] = None"
| "until_close [a] = None"
| "until_close (a # b # cs) =
     (if a = CHR '')'' \<and> b = CHR '';'' then Some []
      else map_option ((#) a) (until_close (b # cs)))"

text \<open>
  One attempt of \<^verbatim>\<open>CREATE TABLE (\w+)\s*\((.*?)\);\<close> (IGNORECASE) at the start of
  the given text. Both greedy runs are maximal: giving back a character of either leaves a
  character that the next pattern item cannot take.
\<close>

definition match_table :: "string \<Rightarrow> (string \<times> string) option" where
  "match_table s =
     (let lit = ''CREATE TABLE '' in
      if map lower_char (take (length lit) s) = map lower_char lit then
        (let r = drop (length lit) s;
             name = takeWhile is_word r;
             r' = dropWhile is_space (dropWhile is_word r)
         in if name = [] then None
            else (case r' of
                    [] \<Rightarrow> None
                  | c # body \<Rightarrow>
                      if c = CHR ''('' then map_option (Pair name) (until_close body) else None))
      else None)"

text \<open>\<^verbatim>\<open>table_pattern.search\<close>: the leftmost position where the pattern matches.\<close>

fun search_table :: "string \<Rightarrow> (string \<times> string) option" where
  "search_table [] = None"
| "search_table (c # cs) =
     (case match_table (c # cs) of Some m \<Rightarrow> Some m | None \<Rightarrow> search_table cs)"

text \<open>
  One attempt of \<^verbatim>\<open>\s*(\w+)\s+([\w\(\)]+)\<close> at a position where \<^verbatim>\<open>^\<close> holds:
  the two groups and the text left after the match.
\<close>

definition match_column :: "string \<Rightarrow> (string \<times> string \<times> string) option" where
  "match_column s =
     (let r1 = dropWhile is_space s;
          name = takeWhile is_word r1;
          r2 = dropWhile is_word r1;
          gap = takeWhile is_space r2;
          r3 = dropWhile is_space r2;
          ty = takeWhile is_type_char r3;
          rest = dropWhile is_type_char r3
      in if name = [] \<or> gap = [] \<or> ty = [] then None else Some (name, ty, rest))"

text \<open>
  \<^verbatim>\<open>column_pattern.finditer\<close> under MULTILINE: the flag says whether the current
  position is the start of the text or directly follows a line feed. A match ends with a
  character of the second group, so the position after it is not a line start.
\<close>

function finditer :: "bool \<Rightarrow> string \<Rightarrow> (string \<times> string) list" where
  "finditer bol [] = []"
| "finditer bol (c # cs) =
     (case (if bol then match_column (c # cs) else None) of
        Some (name, ty, rest) \<Rightarrow> (name, ty) # finditer False rest
      | None \<Rightarrow> finditer (c = CHR 0x0A) cs)"
  by pat_completeness auto
termination
proof (relation "measure (\<lambda>(bol, s). length s)", goal_cases)
  case 1
  show ?case by simp
next
  case (2 bol c cs)
  show ?case by simp
next
  case (3 bol c cs m name tr ty rest)
  then have m: "match_column (c # cs) = Some (name, ty, rest)"
    by (simp split: if_splits)
  let ?r1 = "dropWhile is_space (c # cs)"
  let ?r2 = "dropWhile is_word ?r1"
  let ?r3 = "dropWhile is_space ?r2"
  from m have rest: "rest = dropWhile is_type_char ?r3" and ty: "takeWhile is_type_char ?r3 \<noteq> []"
    by (auto simp: match_column_def Let_def split: if_splits)
  have "length ?r3 \<le> length (c # cs)"
    by (meson length_dropWhile_le le_trans)
  moreover have "length rest < length ?r3"
  proof -
    have "length (takeWhile is_type_char ?r3) + length rest = length ?r3"
      unfolding rest by (metis length_append takeWhile_dropWhile_id)
    with ty show ?thesis by (cases "takeWhile is_type_char ?r3") auto
  qed
  ultimately show ?case by simp
qed

text \<open>
  \<^verbatim>\<open>schema[col_name] = col_type\<close> on an insertion-ordered dictionary, kept as an
  association list in insertion order: an existing key keeps its position and takes the new
  value, a new key goes to the end.
\<close>

fun setitem :: "('k \<times> 'v) list \<Rightarrow> 'k \<Rightarrow> 'v \<Rightarrow> ('k \<times> 'v) list" where
  "setitem [] k v = [(k, v)]"
| "setitem ((k', v') # kvs) k v =
     (if k' = k then (k, v) # kvs else (k', v') # setitem kvs k v)"

text \<open>The loop over the matches, with the schema as accumulator.\<close>

fun add_columns :: "(string \<times> string) list \<Rightarrow> (string \<times> string) list \<Rightarrow> (string \<times> string) list" where
  "add_columns schema [] = schema"
| "add_columns schema ((g1, g2) # ms) =
     (let col_name = strip g1;
          col_type = upper (split_first g2)
      in add_columns (setitem schema col_name col_type) ms)"

text \<open>
  \<^verbatim>\<open>parse_sql_schema\<close>, from the text of the schema file on. The failure is the
  \<^verbatim>\<open>ValueError\<close> raised when the table pattern finds nothing.
\<close>

definition parse_sql_schema :: "string \<Rightarrow> error + (string \<times> string) list" where
  "parse_sql_schema sql_content =
     (case search_table sql_content of
        None \<Rightarrow> Inl ValueError
      | Some (table_name, columns_str) \<Rightarrow> Inr (add_columns [] (finditer True columns_str)))"

section \<open>Cells and data frames\<close>

text \<open>
  A cell of a data frame is a host value: \<^verbatim>\<open>None\<close>, the float not-a-number, the
  not-a-time marker, a string, an integer, a boolean, a finite float or a timestamp. A finite
  float and a timestamp are carried by their printed form, which identifies them. Columns
  are modelled cell by cell, with the library's behaviour on columns of Python objects: a
  replacement by \<^verbatim>\<open>None\<close> stores \<^verbatim>\<open>None\<close>, and \<^verbatim>\<open>astype(bool)\<close> converts
  every element with the host's \<^verbatim>\<open>bool\<close>.
\<close>

datatype cell =
    PyNone
  | NaN
  | NaT
  | PyStr string
  | PyInt int
  | PyBool bool
  | PyFloat string
  | Timestamp string

text \<open>\<^verbatim>\<open>isnull\<close> / \<^verbatim>\<open>notnull\<close>: the three missing markers.\<close>

fun isnull :: "cell \<Rightarrow> bool" where
  "isnull PyNone = True"
| "isnull NaN = True"
| "isnull NaT = True"
| "isnull _ = False"

text \<open>
  The truth value \<^verbatim>\<open>bool(x)\<close> that \<^verbatim>\<open>astype(bool)\<close> takes of every element:
  \<^verbatim>\<open>None\<close>, the empty string, zero and \<^verbatim>\<open>False\<close> are false; not-a-number and
  not-a-time are true like every other value.
\<close>

fun truthy :: "cell \<Rightarrow> bool" where
  "truthy PyNone = False"
| "truthy NaN = True"
| "truthy NaT = True"
| "truthy (PyStr s) = (s \<noteq> [])"
| "truthy (PyInt i) = (i \<noteq> 0)"
| "truthy (PyBool b) = b"
| "truthy (PyFloat r) = (r \<noteq> ''0.0'' \<and> r \<noteq> ''-0.0'')"
| "truthy (Timestamp t) = True"

text \<open>The decimal numeral of an integer, as \<^verbatim>\<open>str\<close> prints it.\<close>

fun str_nat :: "nat \<Rightarrow> string" where
  "str_nat n =
     (if n < 10 then [char_of (48 + n)] else str_nat (n div 10) @ [char_of (48 + n mod 10)])"

declare str_nat.simps [simp del]

definition str_int :: "int \<Rightarrow> string" where
  "str_int i = (if i < 0 then CHR ''-'' # str_nat (nat (- i)) else str_nat (nat i))"

text \<open>The text \<^verbatim>\<open>str(x)\<close> of a host value.\<close>

fun py_str :: "cell \<Rightarrow> string" where
  "py_str PyNone = ''None''"
| "py_str NaN = ''nan''"
| "py_str NaT = ''NaT''"
| "py_str (PyStr s) = s"
| "py_str (PyInt i) = str_int i"
| "py_str (PyBool b) = (if b then ''True'' else ''False'')"
| "py_str (PyFloat r) = r"
| "py_str (Timestamp t) = t"

text \<open>
  What the library does is not in the repository. Where its result is not fixed by the
  calls the normalizer makes, it is a parameter of the model, and a statement holds for
  every value of the parameters unless it has a hypothesis on them:
  \<^item> \<open>numeric\<close> and \<open>datetime\<close>: what \<^verbatim>\<open>pd.to_numeric\<close> and
    \<^verbatim>\<open>pd.to_datetime\<close> make of a present value \<open>c\<close> of a column \<open>series\<close> (the
    result may depend on the whole column: the column's type and the date format are
    inferred from it);
  \<^item> \<open>astype_str\<close>: what \<^verbatim>\<open>astype(str)\<close> makes of a cell (see \<open>str_elementwise\<close>
    and \<open>str_keeps_missing\<close> below);
  \<^item> \<open>where_keeps\<close>: whether, in the column of the given name, the final
    \<^verbatim>\<open>where\<close> leaves a missing marker as it is (a column of floats or of timestamps
    holds no \<^verbatim>\<open>None\<close>) or stores \<^verbatim>\<open>None\<close> (a column of objects).
\<close>

record library =
  numeric :: "cell list \<Rightarrow> cell \<Rightarrow> cell"
  datetime :: "cell list \<Rightarrow> cell \<Rightarrow> cell"
  astype_str :: "cell \<Rightarrow> cell"
  where_keeps :: "string \<Rightarrow> bool"

text \<open>
  \<^verbatim>\<open>astype(str)\<close> as the library does it before its version 3: \<^verbatim>\<open>str\<close> of every
  element, a missing one included. From version 3 on a missing element stays missing.
\<close>

definition str_elementwise :: "cell \<Rightarrow> cell" where
  "str_elementwise c = PyStr (py_str c)"

definition str_keeps_missing :: "cell \<Rightarrow> cell" where
  "str_keeps_missing c = (if isnull c then NaN else PyStr (py_str c))"

text \<open>
  \<^verbatim>\<open>pd.to_numeric(..., errors='coerce')\<close> and \<^verbatim>\<open>pd.to_datetime(..., errors='coerce')\<close>
  on one element of a column. A missing element gives the missing marker of the target
  type; a present one is up to the library.
\<close>

fun to_numeric :: "(cell list \<Rightarrow> cell \<Rightarrow> cell) \<Rightarrow> cell list \<Rightarrow> cell \<Rightarrow> cell" where
  "to_numeric num series PyNone = NaN"
| "to_numeric num series NaN = NaN"
| "to_numeric num series c = num series c"

fun to_datetime :: "(cell list \<Rightarrow> cell \<Rightarrow> cell) \<Rightarrow> cell list \<Rightarrow> cell \<Rightarrow> cell" where
  "to_datetime dt series PyNone = NaT"
| "to_datetime dt series NaN = NaT"
| "to_datetime dt series NaT = NaT"
| "to_datetime dt series c = dt series c"

text \<open>
  A data frame: the number of its rows (its index) and its columns in order, each a name
  with one cell per row.
\<close>

record dataframe =
  index :: nat
  columns :: "(string \<times> cell list) list"

text \<open>
  \<^verbatim>\<open>df[keys]\<close> with a list of names: for every key in turn the columns of that name;
  \<^verbatim>\<open>KeyError\<close> when a key names no column. The result is a new frame on the same index.
\<close>

definition getitem_columns :: "dataframe \<Rightarrow> string list \<Rightarrow> error + dataframe" where
  "getitem_columns df keys =
     (if \<forall>k \<in> set keys. k \<in> set (map fst (columns df))
      then Inr \<lparr>index = index df,
                columns = concat (map (\<lambda>k. filter (\<lambda>c. fst c = k) (columns df)) keys)\<rparr>
      else Inl KeyError)"

text \<open>
  \<^verbatim>\<open>df[col]\<close> with one name, on a frame whose column names are distinct: the column,
  or \<^verbatim>\<open>KeyError\<close>.
\<close>

definition getitem_column :: "dataframe \<Rightarrow> string \<Rightarrow> error + cell list" where
  "getitem_column df col =
     (case map_of (columns df) col of None \<Rightarrow> Inl KeyError | Some series \<Rightarrow> Inr series)"

text \<open>
  \<^verbatim>\<open>df[col] = series\<close>: an existing column takes the new cells where it stands, a
  new name is appended as the last column.
\<close>

definition setitem_column :: "dataframe \<Rightarrow> string \<Rightarrow> cell list \<Rightarrow> dataframe" where
  "setitem_column df col series =
     (if col \<in> set (map fst (columns df))
      then df\<lparr>columns := map (\<lambda>(n, d). if n = col then (n, series) else (n, d)) (columns df)\<rparr>
      else df\<lparr>columns := columns df @ [(col, series)]\<rparr>)"

text \<open>\<^verbatim>\<open>replace(to_replace, value)\<close> with a list of values and one replacement.\<close>

definition replace_cell :: "cell list \<Rightarrow> cell \<Rightarrow> cell \<Rightarrow> cell" where
  "replace_cell to_replace v c = (if c \<in> set to_replace then v else c)"

definition replace :: "cell list \<Rightarrow> cell \<Rightarrow> dataframe \<Rightarrow> dataframe" where
  "replace to_replace v df =
     df\<lparr>columns := map (\<lambda>(n, d). (n, map (replace_cell to_replace v) d)) (columns df)\<rparr>"

text \<open>
  \<^verbatim>\<open>df.where(df.notnull(), None)\<close>: a cell is kept where it is not null; elsewhere the
  column takes \<^verbatim>\<open>None\<close>, unless it is a column that keeps its own missing marker.
\<close>

definition where_cell :: "bool \<Rightarrow> cell \<Rightarrow> cell" where
  "where_cell keeps c = (if \<not> isnull c then c else if keeps then c else PyNone)"

definition where_notnull :: "library \<Rightarrow> dataframe \<Rightarrow> dataframe" where
  "where_notnull lib df =
     df\<lparr>columns := map (\<lambda>(n, d). (n, map (where_cell (where_keeps lib n)) d)) (columns df)\<rparr>"

section \<open>The normalizer\<close>

text \<open>
  The branch of the \<^verbatim>\<open>if\<close>/\<^verbatim>\<open>elif\<close> chain that a declared type takes. The
  comparison is with the whole recorded type string.
\<close>

datatype typeclass = INTEGER | FLOATING | BOOLEAN | DATE | TEXT | PASSTHROUGH

definition typeclass_of :: "string \<Rightarrow> typeclass" where
  "typeclass_of dtype =
     (if dtype \<in> set [''INT'', ''INTEGER'', ''BIGINT''] then INTEGER
      else if dtype \<in> set [''FLOAT'', ''NUMERIC'', ''DECIMAL''] then FLOATING
      else if dtype = ''BOOLEAN'' then BOOLEAN
      else if dtype = ''DATE'' then DATE
      else if dtype = ''TEXT'' then TEXT
      else PASSTHROUGH)"

text \<open>
  The conversion that each branch applies to a cell \<open>c\<close> of its column \<open>series\<close>.
\<close>

fun coerce :: "library \<Rightarrow> typeclass \<Rightarrow> cell list \<Rightarrow> cell \<Rightarrow> cell" where
  "coerce lib INTEGER series c = to_numeric (numeric lib) series c"
| "coerce lib FLOATING series c = to_numeric (numeric lib) series c"
| "coerce lib BOOLEAN series c = PyBool (truthy c)"
| "coerce lib DATE series c = to_datetime (datetime lib) series c"
| "coerce lib TEXT series c = astype_str lib c"
| "coerce lib PASSTHROUGH series c = c"

text \<open>
  Frames are objects: a heap holds them, a reference is a position in the heap, a new
  object goes to the end, and an in-place operation updates the object at its reference.
\<close>

type_synonym heap = "dataframe list"

text \<open>
  The loop over \<^verbatim>\<open>schema.items()\<close>, on the frame at reference \<open>df\<close>. A type of no
  branch leaves the frame as it is; every other type reads the column, converts it and
  assigns it back.
\<close>

fun convert_columns ::
  "library \<Rightarrow> nat \<Rightarrow> (string \<times> string) list \<Rightarrow> heap \<Rightarrow> error + heap" where
  "convert_columns lib df [] h = Inr h"
| "convert_columns lib df ((col, dtype) # items) h =
     (if typeclass_of dtype = PASSTHROUGH then convert_columns lib df items h
      else (case getitem_column (h ! df) col of
              Inl e \<Rightarrow> Inl e
            | Inr series \<Rightarrow>
                convert_columns lib df items
                  (h[df := setitem_column (h ! df) col
                             (map (coerce lib (typeclass_of dtype) series) series)])))"

text \<open>
  \<^verbatim>\<open>clean_data\<close>: the argument \<open>df\<close> is a reference into the heap \<open>h\<close>. The
  selection and its copy are two new objects; the local name is rebound to the copy, which
  the in-place replacement and the loop then change; the result of \<^verbatim>\<open>where\<close> is a
  third new object, whose reference is returned with the final heap.
\<close>

definition clean_data ::
  "library \<Rightarrow> heap \<Rightarrow> nat \<Rightarrow> (string \<times> string) list \<Rightarrow> error + (nat \<times> heap)" where
  "clean_data lib h df schema =
     (case getitem_columns (h ! df) (map fst schema) of
        Inl e \<Rightarrow> Inl e
      | Inr selected \<Rightarrow>
          (let h1 = h @ [selected];
               df' = length h1;
               h2 = h1 @ [h1 ! (length h)];
               h3 = h2[df' := replace [PyStr ''Not Provided'', PyStr ''''] PyNone (h2 ! df')]
           in case convert_columns lib df' schema h3 of
                Inl e \<Rightarrow> Inl e
              | Inr h4 \<Rightarrow> Inr (length h4, h4 @ [where_notnull lib (h4 ! df')])))"

text \<open>Reading a cell of a frame by column name and row number.\<close>

definition cell_at :: "dataframe \<Rightarrow> string \<Rightarrow> nat \<Rightarrow> cell option" where
  "cell_at df col i =
     (case map_of (columns df) col of
        None \<Rightarrow> None
      | Some series \<Rightarrow> if i < length series then Some (series ! i) else None)"

text \<open>
  A well-formed frame, as reading a CSV file gives it: the column names are distinct and
  every column has one cell per row.
\<close>

definition wf_dataframe :: "dataframe \<Rightarrow> bool" where
  "wf_dataframe df \<longleftrightarrow>
     distinct (map fst (columns df)) \<and> (\<forall>c \<in> set (columns df). length (snd c) = index df)"

section \<open>Derived notions used in the statements\<close>

text \<open>The replacement of the two sentinel strings, on one cell.\<close>

definition replace_sentinel :: "cell \<Rightarrow> cell" where
  "replace_sentinel c = replace_cell [PyStr ''Not Provided'', PyStr []] PyNone c"

text \<open>
  What the three steps of the normalizer (replacement of the two sentinel strings, the
  conversion of the declared type, the final \<^verbatim>\<open>where\<close>) do in sequence to a cell
  \<open>c\<close> of the raw column \<open>series\<close> of name \<open>k\<close>.
\<close>

definition normalize_cell :: "library \<Rightarrow> string \<Rightarrow> string \<Rightarrow> cell list \<Rightarrow> cell \<Rightarrow> cell" where
  "normalize_cell lib k dtype series c =
     where_cell (where_keeps lib k)
       (coerce lib (typeclass_of dtype) (map replace_sentinel series) (replace_sentinel c))"

text \<open>The frame with the schema's columns in schema order, every cell normalized.\<close>

definition cleaned :: "library \<Rightarrow> dataframe \<Rightarrow> (string \<times> string) list \<Rightarrow> dataframe" where
  "cleaned lib df schema =
     \<lparr>index = index df,
      columns = map (\<lambda>(k, dtype).
                      (k, map (normalize_cell lib k dtype (the (map_of (columns df) k)))
                            (the (map_of (columns df) k))))
                  schema\<rparr>"

text \<open>A column after the conversion loop over the given items.\<close>

definition converted ::
  "library \<Rightarrow> (string \<times> string) list \<Rightarrow> string \<times> cell list \<Rightarrow> string \<times> cell list" where
  "converted lib items c =
     (fst c, case map_of items (fst c) of
               None \<Rightarrow> snd c
             | Some dtype \<Rightarrow> map (coerce lib (typeclass_of dtype) (snd c)) (snd c))"

text \<open>The frame that a call returned, and a cell of it; nothing when the call raised.\<close>

definition result_frame :: "error + (nat \<times> heap) \<Rightarrow> dataframe option" where
  "result_frame r = (case r of Inl e \<Rightarrow> None | Inr (out, h') \<Rightarrow> Some (h' ! out))"

definition result_cell :: "error + (nat \<times> heap) \<Rightarrow> string \<Rightarrow> nat \<Rightarrow> cell option" where
  "result_cell r col i = (case result_frame r of None \<Rightarrow> None | Some f \<Rightarrow> cell_at f col i)"

text \<open>
  A schema text of ASCII characters laid out with one column declaration at the start of
  each line: leading white space, the column name, white space, the type token, and the rest
  of the line (constraints, a comma, further text), which holds neither a line feed nor a
  semicolon and does not continue the type token.
\<close>

record column_line =
  indent :: string
  name :: string
  gap :: string
  type_token :: string
  tail :: string

definition valid_declaration :: "column_line \<Rightarrow> bool" where
  "valid_declaration d \<longleftrightarrow>
     list_all is_space (indent d) \<and>
     name d \<noteq> [] \<and> list_all is_word (name d) \<and>
     gap d \<noteq> [] \<and> list_all is_space (gap d) \<and>
     type_token d \<noteq> [] \<and> list_all is_type_char (type_token d) \<and>
     (case tail d of [] \<Rightarrow> True | c # cs \<Rightarrow> \<not> is_type_char c) \<and>
     list_all (\<lambda>c. is_ascii c \<and> c \<noteq> CHR 0x0A \<and> c \<noteq> CHR '';'') (tail d)"


definition render_declaration :: "column_line \<Rightarrow> string" where
  "render_declaration d = indent d @ name d @ gap d @ type_token d @ tail d @ [CHR 0x0A]"

definition render_body :: "column_line list \<Rightarrow> string" where
  "render_body ds = concat (map render_declaration ds)"

definition render_ddl :: "string \<Rightarrow> string \<Rightarrow> column_line list \<Rightarrow> string" where
  "render_ddl table_name ws ds =
     ''CREATE TABLE '' @ table_name @ ws @ ''('' @ render_body ds @ '');''"

definition valid_table_name :: "string \<Rightarrow> bool" where
  "valid_table_name t \<longleftrightarrow> t \<noteq> [] \<and> list_all is_word t"


text \<open>The pair that the loop body records for a match.\<close>

definition recorded :: "string \<times> string \<Rightarrow> string \<times> string" where
  "recorded m = (strip (fst m), upper (split_first (snd m)))"

section \<open>Example inputs\<close>

text \<open>
  A library under which no present value parses as a number or a date, \<^verbatim>\<open>astype(str)\<close>
  takes \<^verbatim>\<open>str\<close> of every element, and the columns converted to numbers keep their
  missing marker in the final \<^verbatim>\<open>where\<close>.
\<close>

definition example_library :: library where
  "example_library =
     \<lparr>numeric = (\<lambda>series c. NaN), datetime = (\<lambda>series c. NaT),
      astype_str = str_elementwise, where_keeps = (\<lambda>k. k = ''salary'' \<or> k = ''id'')\<rparr>"

definition example_frame :: dataframe where
  "example_frame =
     \<lparr>index = 2,
      columns = [(''id'', [PyInt 1, PyInt 2]),
                 (''dept'', [PyStr ''ops'', NaN]),
                 (''name'', [PyStr ''Alice'', PyStr ''Not Provided'']),
                 (''salary'', [PyStr ''50000'', PyStr ''Not Provided'']),
                 (''active'', [PyStr ''false'', PyStr []])]\<rparr>"

definition example_schema :: "(string \<times> string) list" where
  "example_schema =
     [(''id'', ''INTEGER''), (''name'', ''TEXT''), (''salary'', ''NUMERIC''), (''active'', ''BOOLEAN'')]"

text \<open>A frame with a column of floats, one of them missing.\<close>

definition example_float_frame :: dataframe where
  "example_float_frame =
     \<lparr>index = 2, columns = [(''bonus'', [PyFloat ''1.5'', NaN])]\<rparr>"



section \<open>Properties of the schema parser\<close>



















text \<open>The dictionary assignment, seen through its keys and its lookups.\<close>

lemma keys_setitem:
  "map fst (setitem s k v) = (if k \<in> set (map fst s) then map fst s else map fst s @ [k])"
proof (induction s)
  case Nil
  show ?case by simp
next
  case (Cons p s)
  obtain k' v' where p: "p = (k', v')" by (cases p)
  show ?case
  proof (cases "k' = k")
    case True
    then show ?thesis by (simp add: p)
  next
    case False
    then show ?thesis using Cons.IH by (simp add: p)
  qed
qed



lemma add_columns_step:
  "add_columns s (m # ms) = add_columns (setitem s (fst (recorded m)) (snd (recorded m))) ms"
  by (cases m) (simp add: recorded_def)


lemma keys_add_columns:
  "distinct (map fst s) \<Longrightarrow>
   map fst (add_columns s ms) = rev (remdups (rev (map fst s @ map fst (map recorded ms))))"
proof (induction ms arbitrary: s)
  case Nil
  then show ?case by (simp add: distinct_remdups_id)
next
  case (Cons m ms)
  let ?k = "fst (recorded m)" and ?v = "snd (recorded m)"
  let ?s' = "setitem s ?k ?v"
  let ?ks = "map fst (map recorded ms)"
  have d': "distinct (map fst ?s')"
    using Cons.prems by (simp add: keys_setitem)
  have "map fst (add_columns s (m # ms)) = rev (remdups (rev (map fst ?s' @ ?ks)))"
    unfolding add_columns_step by (rule Cons.IH[OF d'])
  also have "\<dots> = rev (remdups (rev (map fst s @ ?k # ?ks)))"
  proof (cases "?k \<in> set (map fst s)")
    case True
    have "remdups (rev ?ks @ ?k # rev (map fst s)) = remdups (rev ?ks @ remdups (?k # rev (map fst s)))"
      by (simp only: remdups_append2)
    also have "\<dots> = remdups (rev ?ks @ remdups (rev (map fst s)))"
      using True by simp
    also have "\<dots> = remdups (rev ?ks @ rev (map fst s))"
      by (simp only: remdups_append2)
    finally show ?thesis
      using True by (simp add: keys_setitem)
  next
    case False
    then show ?thesis by (simp add: keys_setitem)
  qed
  finally show ?case by simp
qed










text \<open>Every character of a schema text of this layout is an ASCII character.\<close>

lemma class_ascii:
  "is_word c \<Longrightarrow> is_ascii c" "is_space c \<Longrightarrow> is_ascii c" "is_type_char c \<Longrightarrow> is_ascii c"
  by (auto simp: is_word_def is_space_def is_type_char_def is_ascii_def Let_def)

lemma render_declaration_ascii:
  assumes "valid_declaration d"
  shows "list_all is_ascii (render_declaration d)"
  using assms class_ascii
  unfolding valid_declaration_def render_declaration_def list_all_iff
  by (auto simp: is_ascii_def)

lemma render_ddl_ascii:
  assumes "valid_table_name t" and "list_all is_space ws" and "list_all valid_declaration ds"
  shows "list_all is_ascii (render_ddl t ws ds)"
proof -
  have "list_all is_ascii (render_body ds)"
    using assms(3) render_declaration_ascii
    by (induction ds) (simp_all add: render_body_def)
  moreover have "list_all is_ascii t" "list_all is_ascii ws"
    using assms(1,2) class_ascii by (auto simp: valid_table_name_def list_all_iff)
  moreover have "list_all is_ascii ''CREATE TABLE ''" "list_all is_ascii ''(''" "list_all is_ascii '');''"
    by (simp_all add: is_ascii_def)
  ultimately show ?thesis
    by (simp add: render_ddl_def)
qed


lemma parse_sql_schema_distinct:
  "parse_sql_schema s = Inr schema \<Longrightarrow> distinct (map fst schema)"
proof -
  assume "parse_sql_schema s = Inr schema"
  then obtain ms where "schema = add_columns [] ms"
    by (auto simp: parse_sql_schema_def split: option.splits)
  then show ?thesis
    using keys_add_columns[of "[]" ms] by simp
qed










text \<open>
  Claim C2 on the code: the type recorded for \<^verbatim>\<open>NUMERIC(10,2)\<close> is
  \<^verbatim>\<open>NUMERIC(10\<close>, which takes no branch of the normalizer, while \<^verbatim>\<open>NUMERIC\<close> takes
  the floating branch; likewise \<^verbatim>\<open>INT(11)\<close> is recorded with its parentheses and takes
  no branch, while \<^verbatim>\<open>INT\<close> takes the integer branch.
\<close>

theorem parse_sql_schema_sized_type:
  "parse_sql_schema ''CREATE TABLE emp (\<newline>  salary NUMERIC(10,2)\<newline>);'' =
     Inr [(''salary'', ''NUMERIC(10'')] \<and>
   typeclass_of ''NUMERIC(10'' = PASSTHROUGH \<and>
   typeclass_of ''NUMERIC'' = FLOATING \<and>
   parse_sql_schema ''CREATE TABLE emp (\<newline>  id INT(11)\<newline>);'' = Inr [(''id'', ''INT(11)'')] \<and>
   typeclass_of ''INT(11)'' = PASSTHROUGH \<and>
   typeclass_of ''INT'' = INTEGER"
  by code_simp

section \<open>Properties of the normalizer\<close>

lemma filter_unique_key:
  "distinct (map fst cs) \<Longrightarrow> k \<in> set (map fst cs) \<Longrightarrow>
   filter (\<lambda>c. fst c = k) cs = [(k, the (map_of cs k))]"
proof (induction cs)
  case Nil
  then show ?case by simp
next
  case (Cons c cs)
  show ?case
  proof (cases "fst c = k")
    case True
    with Cons.prems have "k \<notin> set (map fst cs)" by auto
    then have "filter (\<lambda>c. fst c = k) cs = []"
      by (auto simp: filter_empty_conv)
    with True show ?thesis by (cases c) simp
  next
    case False
    with Cons show ?thesis by (cases c) auto
  qed
qed

lemma concat_map_singleton: "concat (map (\<lambda>k. [f k]) ks) = map f ks"
  by (induction ks) simp_all

lemma getitem_columns_present:
  assumes "distinct (map fst (columns df))"
    and "set keys \<subseteq> set (map fst (columns df))"
  shows "getitem_columns df keys =
         Inr \<lparr>index = index df, columns = map (\<lambda>k. (k, the (map_of (columns df) k))) keys\<rparr>"
proof -
  have "map (\<lambda>k. filter (\<lambda>c. fst c = k) (columns df)) keys =
        map (\<lambda>k. [(k, the (map_of (columns df) k))]) keys"
    using assms by (intro map_cong refl filter_unique_key) auto
  then have "concat (map (\<lambda>k. filter (\<lambda>c. fst c = k) (columns df)) keys) =
             map (\<lambda>k. (k, the (map_of (columns df) k))) keys"
    by (simp only: concat_map_singleton)
  moreover have "\<forall>k \<in> set keys. k \<in> set (map fst (columns df))"
    using assms(2) by blast
  ultimately show ?thesis
    unfolding getitem_columns_def by simp
qed

lemma getitem_columns_absent:
  "\<not> set keys \<subseteq> set (map fst (columns df)) \<Longrightarrow> getitem_columns df keys = Inl KeyError"
  unfolding getitem_columns_def by auto

lemma coerce_passthrough: "map (coerce lib PASSTHROUGH series) d = d"
  by (induction d) simp_all

lemma convert_columns_spec:
  assumes "r < length h"
    and "distinct (map fst items)"
    and "set (map fst items) \<subseteq> set (map fst (columns (h ! r)))"
    and "distinct (map fst (columns (h ! r)))"
  shows "convert_columns lib r items h =
         Inr (h[r := (h ! r)\<lparr>columns := map (converted lib items) (columns (h ! r))\<rparr>])"
  using assms
proof (induction items arbitrary: h)
  case Nil
  have "map (converted lib []) (columns (h ! r)) = columns (h ! r)"
    by (rule map_idI) (simp add: converted_def)
  then show ?case by simp
next
  case (Cons item items)
  obtain col dtype where item: "item = (col, dtype)" by (cases item)
  let ?cs = "columns (h ! r)"
  from Cons.prems item have col_in: "col \<in> set (map fst ?cs)"
    and col_notin: "col \<notin> set (map fst items)"
    and dist: "distinct (map fst items)"
    and sub: "set (map fst items) \<subseteq> set (map fst ?cs)"
    by auto
  show ?case
  proof (cases "typeclass_of dtype = PASSTHROUGH")
    case True
    have meq: "map (converted lib ((col, dtype) # items)) ?cs = map (converted lib items) ?cs"
    proof (rule map_cong[OF refl])
      fix c assume "c \<in> set ?cs"
      from col_notin have "map_of items col = None"
        by (simp add: map_of_eq_None_iff)
      then show "converted lib ((col, dtype) # items) c = converted lib items c"
        using True by (simp add: converted_def coerce_passthrough)
    qed
    have ih: "convert_columns lib r items h =
        Inr (h[r := (h ! r)\<lparr>columns := map (converted lib items) ?cs\<rparr>])"
      using Cons.IH[OF Cons.prems(1) dist sub Cons.prems(4)] .
    show ?thesis by (simp add: item True ih meq)
  next
    case False
    obtain series where series: "map_of ?cs col = Some series"
      using col_in by (metis map_of_eq_None_iff not_Some_eq set_map)
    let ?cs1 = "map (\<lambda>(n, d). if n = col then (n, map (coerce lib (typeclass_of dtype) series) series) else (n, d)) ?cs"
    let ?h1 = "h[r := (h ! r)\<lparr>columns := ?cs1\<rparr>]"
    have names1: "map fst ?cs1 = map fst ?cs"
      by (induction ?cs) (auto split: prod.splits)
    have step: "convert_columns lib r ((col, dtype) # items) h = convert_columns lib r items ?h1"
      using False series col_in by (simp add: getitem_column_def setitem_column_def)
    have h1r: "?h1 ! r = (h ! r)\<lparr>columns := ?cs1\<rparr>"
      using Cons.prems(1) by simp
    have cols1: "columns (?h1 ! r) = ?cs1"
      unfolding h1r by simp
    have ih: "convert_columns lib r items ?h1 =
          Inr (?h1[r := (?h1 ! r)\<lparr>columns := map (converted lib items) (columns (?h1 ! r))\<rparr>])"
    proof (rule Cons.IH)
      show "r < length ?h1" using Cons.prems(1) by simp
      show "distinct (map fst items)" by (rule dist)
      show "set (map fst items) \<subseteq> set (map fst (columns (?h1 ! r)))"
        using sub unfolding cols1 names1 .
      show "distinct (map fst (columns (?h1 ! r)))"
        using Cons.prems(4) unfolding cols1 names1 .
    qed
    have meq: "map (converted lib items) ?cs1 = map (converted lib ((col, dtype) # items)) ?cs"
    proof -
      have "\<And>c. c \<in> set ?cs \<Longrightarrow>
              converted lib items (case c of (n, d) \<Rightarrow> if n = col then (n, map (coerce lib (typeclass_of dtype) series) series) else (n, d)) =
              converted lib ((col, dtype) # items) c"
      proof -
        fix c assume c: "c \<in> set ?cs"
        obtain n d where nd: "c = (n, d)" by (cases c)
        show "converted lib items (case c of (n, d) \<Rightarrow> if n = col then (n, map (coerce lib (typeclass_of dtype) series) series) else (n, d)) =
              converted lib ((col, dtype) # items) c"
        proof (cases "n = col")
          case True
          with c nd Cons.prems(4) series have "d = series"
            by (metis map_of_is_SomeI option.inject)
          moreover from col_notin have "map_of items col = None"
            by (simp add: map_of_eq_None_iff)
          ultimately show ?thesis using True nd by (simp add: converted_def)
        next
          case False
          then show ?thesis using nd by (simp add: converted_def)
        qed
      qed
      then show ?thesis by (simp add: comp_def cong: map_cong)
    qed
    have "convert_columns lib r items ?h1 =
          Inr (h[r := (h ! r)\<lparr>columns := map (converted lib ((col, dtype) # items)) ?cs\<rparr>])"
      unfolding ih cols1 h1r by (simp add: meq del: map_map)
    then show ?thesis
      unfolding item step .
  qed
qed


lemma converted_keys:
  assumes "distinct (map fst schema)"
  shows "map (converted lib schema) (map (\<lambda>k. (k, g k)) (map fst schema)) =
         map (\<lambda>(k, dtype). (k, map (coerce lib (typeclass_of dtype) (g k)) (g k))) schema"
proof -
  have "\<And>kd. kd \<in> set schema \<Longrightarrow>
          converted lib schema (fst kd, g (fst kd)) =
          (case kd of (k, dtype) \<Rightarrow> (k, map (coerce lib (typeclass_of dtype) (g k)) (g k)))"
  proof -
    fix kd assume kd: "kd \<in> set schema"
    obtain k dtype where p: "kd = (k, dtype)" by (cases kd)
    with kd assms have "map_of schema k = Some dtype" by simp
    then show "converted lib schema (fst kd, g (fst kd)) =
          (case kd of (k, dtype) \<Rightarrow> (k, map (coerce lib (typeclass_of dtype) (g k)) (g k)))"
      by (simp add: converted_def p)
  qed
  then show ?thesis by (simp add: comp_def cong: map_cong)
qed

lemma clean_data_success:
  assumes wf: "distinct (map fst (columns (h ! df)))"
    and dist: "distinct (map fst schema)"
    and sub: "set (map fst schema) \<subseteq> set (map fst (columns (h ! df)))"
  shows "\<exists>sel conv. clean_data lib h df schema =
           Inr (length h + 2, h @ [sel, conv, cleaned lib (h ! df) schema])"
proof -
  let ?cs = "columns (h ! df)"
  let ?keys = "map fst schema"
  let ?rc = "replace_cell [PyStr ''Not Provided'', PyStr []] PyNone"
  define sel where "sel = \<lparr>index = index (h ! df), columns = map (\<lambda>k. (k, the (map_of ?cs k))) ?keys\<rparr>"
  define rep where "rep = \<lparr>index = index (h ! df), columns = map (\<lambda>k. (k, map ?rc (the (map_of ?cs k)))) ?keys\<rparr>"
  define conv where "conv = rep\<lparr>columns := map (converted lib schema) (columns rep)\<rparr>"
  have g: "getitem_columns (h ! df) ?keys = Inr sel"
    unfolding sel_def by (rule getitem_columns_present[OF wf sub])
  have r: "replace [PyStr ''Not Provided'', PyStr []] PyNone sel = rep"
    by (simp add: replace_def sel_def rep_def comp_def)
  have names: "map fst (columns rep) = ?keys"
    by (simp add: rep_def comp_def)
  have at: "(h @ [sel, rep]) ! Suc (length h) = rep"
    by (simp add: nth_append)
  have c: "convert_columns lib (Suc (length h)) schema (h @ [sel, rep]) = Inr (h @ [sel, conv])"
  proof -
    have "convert_columns lib (Suc (length h)) schema (h @ [sel, rep]) =
          Inr ((h @ [sel, rep])[Suc (length h) := ((h @ [sel, rep]) ! Suc (length h))
               \<lparr>columns := map (converted lib schema) (columns ((h @ [sel, rep]) ! Suc (length h)))\<rparr>])"
    proof (rule convert_columns_spec)
      show "Suc (length h) < length (h @ [sel, rep])" by simp
      show "distinct (map fst schema)" by (rule dist)
      show "set (map fst schema) \<subseteq> set (map fst (columns ((h @ [sel, rep]) ! Suc (length h))))"
        unfolding at names by simp
      show "distinct (map fst (columns ((h @ [sel, rep]) ! Suc (length h))))"
        unfolding at names by (rule dist)
    qed
    then show ?thesis
      unfolding at conv_def by (simp add: list_update_append)
  qed
  have w: "where_notnull lib conv = cleaned lib (h ! df) schema"
  proof -
    have "columns conv =
          map (\<lambda>(k, dtype). (k, map (coerce lib (typeclass_of dtype) (map ?rc (the (map_of ?cs k))))
                                   (map ?rc (the (map_of ?cs k))))) schema"
      unfolding conv_def using converted_keys[OF dist, of lib "\<lambda>k. map ?rc (the (map_of ?cs k))"]
      by (simp add: rep_def)
    moreover have "index conv = index (h ! df)"
      by (simp add: conv_def rep_def)
    moreover have "?rc = replace_sentinel"
      by (simp add: fun_eq_iff replace_sentinel_def)
    ultimately show ?thesis
      by (simp add: where_notnull_def cleaned_def normalize_cell_def comp_def split_def)
  qed
  have "clean_data lib h df schema = Inr (length h + 2, h @ [sel, conv, cleaned lib (h ! df) schema])"
    unfolding clean_data_def g
    by (simp add: Let_def nth_append list_update_append r c w)
  then show ?thesis by blast
qed

lemma cell_at_cleaned:
  assumes dist: "distinct (map fst schema)"
    and kd: "(k, dtype) \<in> set schema"
    and s: "map_of (columns df) k = Some series"
    and i: "i < length series"
  shows "cell_at (cleaned lib df schema) k i = Some (normalize_cell lib k dtype series (series ! i))"
proof -
  let ?col = "\<lambda>(k, dtype). (k, map (normalize_cell lib k dtype (the (map_of (columns df) k)))
                                  (the (map_of (columns df) k)))"
  have "map_of (map ?col schema) k = Some (snd (?col (k, dtype)))"
  proof (rule map_of_is_SomeI)
    show "distinct (map fst (map ?col schema))"
      using dist by (simp add: comp_def split_def)
    show "(k, snd (?col (k, dtype))) \<in> set (map ?col schema)"
      using kd by force
  qed
  then show ?thesis
    using s i by (simp add: cell_at_def cleaned_def)
qed

lemma clean_data_frame:
  assumes wf: "wf_dataframe (h ! df)"
    and dist: "distinct (map fst schema)"
    and sub: "set (map fst schema) \<subseteq> set (map fst (columns (h ! df)))"
  shows "result_frame (clean_data lib h df schema) = Some (cleaned lib (h ! df) schema)"
proof -
  from wf have d: "distinct (map fst (columns (h ! df)))"
    by (simp add: wf_dataframe_def)
  from clean_data_success[OF d dist sub, of lib] obtain sel conv where
    "clean_data lib h df schema = Inr (length h + 2, h @ [sel, conv, cleaned lib (h ! df) schema])"
    by blast
  then show ?thesis
    by (simp add: result_frame_def nth_append)
qed

lemma clean_data_cell:
  assumes wf: "wf_dataframe (h ! df)"
    and dist: "distinct (map fst schema)"
    and sub: "set (map fst schema) \<subseteq> set (map fst (columns (h ! df)))"
    and kd: "(k, dtype) \<in> set schema"
    and c: "cell_at (h ! df) k i = Some c"
  shows "\<exists>series. map_of (columns (h ! df)) k = Some series \<and>
           result_cell (clean_data lib h df schema) k i = Some (normalize_cell lib k dtype series c)"
proof -
  from c obtain series where s: "map_of (columns (h ! df)) k = Some series" and i: "i < length series"
    and ci: "series ! i = c"
    by (auto simp: cell_at_def split: option.splits if_splits)
  from clean_data_frame[OF wf dist sub, of lib] cell_at_cleaned[OF dist kd s i, of lib]
  have "result_cell (clean_data lib h df schema) k i = Some (normalize_cell lib k dtype series c)"
    by (simp add: result_cell_def ci)
  with s show ?thesis by blast
qed

lemma wf_example_frame: "wf_dataframe example_frame"
  by (simp add: wf_dataframe_def example_frame_def)

lemma example_schema_present:
  "distinct (map fst example_schema) \<and>
   set (map fst example_schema) \<subseteq> set (map fst (columns example_frame))"
  by (simp add: example_schema_def example_frame_def)

lemma convert_columns_frame:
  "convert_columns lib r items h = Inr h' \<Longrightarrow> length h' = length h \<and> take r h' = take r h"
proof (induction items arbitrary: h)
  case Nil
  then show ?case by simp
next
  case (Cons item items)
  obtain col dtype where item: "item = (col, dtype)" by (cases item)
  show ?case
  proof (cases "typeclass_of dtype = PASSTHROUGH")
    case True
    with Cons.prems item have "convert_columns lib r items h = Inr h'" by simp
    then show ?thesis by (rule Cons.IH)
  next
    case False
    with Cons.prems item obtain series where
      run: "convert_columns lib r items
              (h[r := setitem_column (h ! r) col (map (coerce lib (typeclass_of dtype) series) series)])
            = Inr h'"
      by (auto split: sum.splits)
    from Cons.IH[OF run] show ?thesis by simp
  qed
qed

lemma normalize_boolean:
  "typeclass_of dtype = BOOLEAN \<Longrightarrow>
   normalize_cell lib k dtype series c =
     PyBool (truthy (replace_cell [PyStr ''Not Provided'', PyStr []] PyNone c))"
  by (simp add: normalize_cell_def where_cell_def replace_sentinel_def)

lemma normalize_sentinel:
  assumes "c = PyStr [] \<or> c = PyStr ''Not Provided''" and "typeclass_of dtype \<noteq> TEXT"
  shows "if typeclass_of dtype = BOOLEAN then normalize_cell lib k dtype series c = PyBool False
         else isnull (normalize_cell lib k dtype series c)"
proof -
  from assms(1) have r: "replace_sentinel c = PyNone"
    by (auto simp: replace_sentinel_def replace_cell_def)
  show ?thesis
    using assms(2)
    by (cases "typeclass_of dtype") (simp_all add: normalize_cell_def r where_cell_def)
qed

lemma normalize_text_elementwise:
  assumes "typeclass_of dtype = TEXT" and "astype_str lib = str_elementwise"
  shows "normalize_cell lib k dtype series c = PyStr (py_str (replace_sentinel c))"
  using assms by (simp add: normalize_cell_def str_elementwise_def where_cell_def)

lemma normalize_text_keeps_missing:
  assumes "typeclass_of dtype = TEXT" and "astype_str lib = str_keeps_missing"
  shows "isnull (normalize_cell lib k dtype series c) = isnull (replace_sentinel c)"
  using assms by (simp add: normalize_cell_def str_keeps_missing_def where_cell_def)

text \<open>
  Claim C8. When the frame's header holds every column name of the schema, the normalizer
  returns a frame with the same number of rows as its input, every column of it has that
  many cells, and the cell in row \<open>i\<close> of an output column is the normalized cell of row
  \<open>i\<close> of the input column of the same name: no row is dropped, added or moved.
\<close>

theorem clean_data_row_count:
  assumes wf: "wf_dataframe (h ! df)"
    and dist: "distinct (map fst schema)"
    and sub: "set (map fst schema) \<subseteq> set (map fst (columns (h ! df)))"
  shows "\<exists>out h'. clean_data lib h df schema = Inr (out, h') \<and>
           index (h' ! out) = index (h ! df) \<and>
           list_all (\<lambda>c. length (snd c) = index (h ! df)) (columns (h' ! out)) \<and>
           (\<forall>(k, dtype) \<in> set schema. \<forall>i < index (h ! df).
              \<exists>series c. map_of (columns (h ! df)) k = Some series \<and>
                  cell_at (h ! df) k i = Some c \<and>
                  cell_at (h' ! out) k i = Some (normalize_cell lib k dtype series c))"
proof -
  let ?cs = "columns (h ! df)"
  from wf have d: "distinct (map fst ?cs)" and len: "\<forall>c \<in> set ?cs. length (snd c) = index (h ! df)"
    by (simp_all add: wf_dataframe_def)
  from clean_data_success[OF d dist sub, of lib] obtain sel conv where
    run: "clean_data lib h df schema = Inr (length h + 2, h @ [sel, conv, cleaned lib (h ! df) schema])"
    by blast
  let ?out = "length h + 2" and ?h' = "h @ [sel, conv, cleaned lib (h ! df) schema]"
  have out: "?h' ! ?out = cleaned lib (h ! df) schema"
    by (simp add: nth_append)
  have col: "\<And>k. k \<in> set (map fst schema) \<Longrightarrow>
              \<exists>series. map_of ?cs k = Some series \<and> length series = index (h ! df)"
  proof -
    fix k assume "k \<in> set (map fst schema)"
    with sub have "k \<in> set (map fst ?cs)" by blast
    then obtain series where s: "(k, series) \<in> set ?cs" by auto
    with d have "map_of ?cs k = Some series" by simp
    moreover from s len have "length series = index (h ! df)" by force
    ultimately show "\<exists>series. map_of ?cs k = Some series \<and> length series = index (h ! df)" by blast
  qed
  have 1: "index (?h' ! ?out) = index (h ! df)"
    unfolding out by (simp add: cleaned_def)
  have 2: "list_all (\<lambda>c. length (snd c) = index (h ! df)) (columns (?h' ! ?out))"
    unfolding out using col by (fastforce simp: cleaned_def list_all_iff)
  have 3: "\<forall>(k, dtype) \<in> set schema. \<forall>i < index (h ! df).
              \<exists>series c. map_of ?cs k = Some series \<and>
                  cell_at (h ! df) k i = Some c \<and>
                  cell_at (?h' ! ?out) k i = Some (normalize_cell lib k dtype series c)"
  proof (intro ballI allI impI, clarify)
    fix k dtype i assume kd: "(k, dtype) \<in> set schema" and i: "i < index (h ! df)"
    from kd have "k \<in> set (map fst schema)" by force
    from col[OF this] obtain series where s: "map_of ?cs k = Some series" "length series = index (h ! df)"
      by blast
    with i have c: "cell_at (h ! df) k i = Some (series ! i)" and i': "i < length series"
      by (simp_all add: cell_at_def)
    from cell_at_cleaned[OF dist kd s(1) i', of lib] c s(1)
    show "\<exists>series c. map_of ?cs k = Some series \<and>
              cell_at (h ! df) k i = Some c \<and>
              cell_at (?h' ! ?out) k i = Some (normalize_cell lib k dtype series c)"
      unfolding out by blast
  qed
  from run 1 2 3 show ?thesis by blast
qed

theorem clean_data_row_count_witness:
  "\<exists>out h'. clean_data example_library [example_frame] 0 example_schema = Inr (out, h') \<and>
           index (h' ! out) = 2 \<and>
           list_all (\<lambda>c. length (snd c) = 2) (columns (h' ! out)) \<and>
           (\<forall>(k, dtype) \<in> set example_schema. \<forall>i < 2.
              \<exists>series c. map_of (columns example_frame) k = Some series \<and>
                  cell_at example_frame k i = Some c \<and>
                  cell_at (h' ! out) k i = Some (normalize_cell example_library k dtype series c))"
proof -
  have wf: "wf_dataframe ([example_frame] ! 0)"
    using wf_example_frame by simp
  have dist: "distinct (map fst example_schema)"
    using example_schema_present by simp
  have sub: "set (map fst example_schema) \<subseteq> set (map fst (columns ([example_frame] ! 0)))"
    using example_schema_present by simp
  have i: "index example_frame = 2"
    by (simp add: example_frame_def)
  from clean_data_row_count[OF wf dist sub, of example_library]
  show ?thesis by (simp add: i)
qed

text \<open>
  Claim C9. The normalizer raises \<^verbatim>\<open>KeyError\<close> (the missing-column failure) exactly
  when some column name of the schema is absent from the frame's header, and it raises
  nothing else. Otherwise it returns a frame whose columns are the schema's names in schema
  order, whatever further columns the input has.
\<close>

theorem clean_data_missing_column:
  assumes wf: "wf_dataframe (h ! df)"
    and dist: "distinct (map fst schema)"
  shows "if set (map fst schema) \<subseteq> set (map fst (columns (h ! df)))
         then \<exists>out h'. clean_data lib h df schema = Inr (out, h') \<and>
                map fst (columns (h' ! out)) = map fst schema
         else clean_data lib h df schema = Inl KeyError"
proof (cases "set (map fst schema) \<subseteq> set (map fst (columns (h ! df)))")
  case True
  from wf have d: "distinct (map fst (columns (h ! df)))"
    by (simp add: wf_dataframe_def)
  from clean_data_success[OF d dist True, of lib] obtain sel conv where
    run: "clean_data lib h df schema = Inr (length h + 2, h @ [sel, conv, cleaned lib (h ! df) schema])"
    by blast
  have "map fst (columns ((h @ [sel, conv, cleaned lib (h ! df) schema]) ! (length h + 2))) = map fst schema"
    by (simp add: nth_append cleaned_def comp_def split_def)
  with run True show ?thesis by auto
next
  case False
  then have "getitem_columns (h ! df) (map fst schema) = Inl KeyError"
    by (rule getitem_columns_absent)
  then have "clean_data lib h df schema = Inl KeyError"
    by (simp add: clean_data_def)
  with False show ?thesis by simp
qed

theorem clean_data_missing_column_witness:
  "clean_data example_library [example_frame] 0 [(''salary'', ''INTEGER''), (''bonus'', ''INTEGER'')]
     = Inl KeyError \<and>
   (\<exists>out h'. clean_data example_library [example_frame] 0 example_schema = Inr (out, h') \<and>
      map fst (columns (h' ! out)) = [''id'', ''name'', ''salary'', ''active''])"
proof -
  have wf: "wf_dataframe ([example_frame] ! 0)"
    using wf_example_frame by simp
  have d1: "distinct (map fst [(''salary'', ''INTEGER''), (''bonus'', ''INTEGER'')])"
    by simp
  have d2: "distinct (map fst example_schema)"
    using example_schema_present by simp
  have "clean_data example_library [example_frame] 0 [(''salary'', ''INTEGER''), (''bonus'', ''INTEGER'')]
          = Inl KeyError"
    using clean_data_missing_column[OF wf d1, of example_library]
    by (simp add: example_frame_def)
  moreover have "\<exists>out h'. clean_data example_library [example_frame] 0 example_schema = Inr (out, h') \<and>
      map fst (columns (h' ! out)) = [''id'', ''name'', ''salary'', ''active'']"
    using clean_data_missing_column[OF wf d2, of example_library]
    by (simp add: example_frame_def example_schema_def)
  ultimately show ?thesis by blast
qed

text \<open>
  Claim C10. A successful call leaves its argument alone: the object at the input reference
  (and every other object that existed before the call) is the same after the call, and the
  returned reference is to an object created by the call.
\<close>

theorem clean_data_keeps_input:
  assumes ref: "df < length h"
    and run: "clean_data lib h df schema = Inr (out, h')"
  shows "h' ! df = h ! df \<and> take (length h) h' = h \<and> length h \<le> out \<and> out < length h'"
proof -
  let ?keys = "map fst schema"
  from run obtain sel where g: "getitem_columns (h ! df) ?keys = Inr sel"
    by (auto simp: clean_data_def split: sum.splits)
  let ?h3 = "h @ [sel, replace [PyStr ''Not Provided'', PyStr []] PyNone sel]"
  from run g obtain h4 where
    c: "convert_columns lib (Suc (length h)) schema ?h3 = Inr h4"
    and res: "out = length h4" "h' = h4 @ [where_notnull lib (h4 ! Suc (length h))]"
    by (auto simp: clean_data_def Let_def nth_append list_update_append split: sum.splits)
  from convert_columns_frame[OF c] have l4: "length h4 = length h + 2"
    and t4: "take (Suc (length h)) h4 = take (Suc (length h)) ?h3"
    by simp_all
  have "take (length h) h4 = take (length h) (take (Suc (length h)) h4)"
    by simp
  also have "\<dots> = take (length h) (take (Suc (length h)) ?h3)"
    by (simp only: t4)
  also have "\<dots> = h"
    by simp
  finally have old: "take (length h) h4 = h" .
  have keep: "take (length h) h' = h"
    unfolding res using old l4 by simp
  have "h' ! df = take (length h) h' ! df"
    using ref by simp
  with keep have "h' ! df = h ! df" by simp
  moreover have "length h \<le> out" "out < length h'"
    unfolding res using l4 by simp_all
  ultimately show ?thesis using keep by simp
qed

theorem clean_data_keeps_input_witness:
  "\<exists>out h'. clean_data example_library [example_frame] 0 example_schema = Inr (out, h') \<and>
      h' ! 0 = example_frame \<and> take 1 h' = [example_frame] \<and> 1 \<le> out \<and> out < length h'"
proof -
  have "distinct (map fst (columns ([example_frame] ! 0)))"
    by (simp add: example_frame_def)
  moreover have "distinct (map fst example_schema)"
    and "set (map fst example_schema) \<subseteq> set (map fst (columns ([example_frame] ! 0)))"
    using example_schema_present by simp_all
  ultimately obtain out h' where
    run: "clean_data example_library [example_frame] 0 example_schema = Inr (out, h')"
    using clean_data_success[of "[example_frame]" 0 example_schema example_library] by blast
  have "0 < length [example_frame]" by simp
  from clean_data_keeps_input[OF this run] run show ?thesis by simp
qed

text \<open>
  Claim C3, as amended. In a column whose declared type is \<^verbatim>\<open>BOOLEAN\<close> every cell of
  the result is the truth value that the host gives the cell after the sentinel replacement:
  false for the empty string and for \<^verbatim>\<open>Not Provided\<close> (both replaced by \<^verbatim>\<open>None\<close>),
  for \<^verbatim>\<open>None\<close>, for zero and for \<^verbatim>\<open>False\<close>; true for every other value, the
  string \<^verbatim>\<open>false\<close> and the missing markers not-a-number and not-a-time included.
\<close>

theorem clean_data_boolean:
  assumes wf: "wf_dataframe (h ! df)"
    and dist: "distinct (map fst schema)"
    and sub: "set (map fst schema) \<subseteq> set (map fst (columns (h ! df)))"
    and kd: "(k, dtype) \<in> set schema"
    and b: "typeclass_of dtype = BOOLEAN"
    and c: "cell_at (h ! df) k i = Some c"
  shows "result_cell (clean_data lib h df schema) k i =
           Some (PyBool (truthy (replace_cell [PyStr ''Not Provided'', PyStr []] PyNone c))) \<and>
         result_cell (clean_data lib h df schema) k i =
           Some (PyBool (c \<notin> set [PyStr [], PyStr ''Not Provided'', PyNone, PyInt 0, PyBool False,
                                   PyFloat ''0.0'', PyFloat ''-0.0'']))"
proof -
  from clean_data_cell[OF wf dist sub kd c, of lib] obtain series where
    "result_cell (clean_data lib h df schema) k i = Some (normalize_cell lib k dtype series c)"
    by blast
  then have 1: "result_cell (clean_data lib h df schema) k i =
           Some (PyBool (truthy (replace_cell [PyStr ''Not Provided'', PyStr []] PyNone c)))"
    using normalize_boolean[OF b, of lib k series c] by simp
  have 2: "truthy (replace_cell [PyStr ''Not Provided'', PyStr []] PyNone c) =
           (c \<notin> set [PyStr [], PyStr ''Not Provided'', PyNone, PyInt 0, PyBool False,
                      PyFloat ''0.0'', PyFloat ''-0.0''])"
    by (cases c) (auto simp: replace_cell_def)
  from 1 2 show ?thesis by simp
qed

theorem clean_data_boolean_witness:
  "cell_at example_frame ''active'' 0 = Some (PyStr ''false'') \<and>
   result_cell (clean_data example_library [example_frame] 0 example_schema) ''active'' 0 =
     Some (PyBool True) \<and>
   cell_at example_frame ''active'' 1 = Some (PyStr []) \<and>
   result_cell (clean_data example_library [example_frame] 0 example_schema) ''active'' 1 =
     Some (PyBool False)"
proof -
  have wf: "wf_dataframe ([example_frame] ! 0)"
    using wf_example_frame by simp
  have dist: "distinct (map fst example_schema)"
    and sub: "set (map fst example_schema) \<subseteq> set (map fst (columns ([example_frame] ! 0)))"
    using example_schema_present by simp_all
  have kd: "(''active'', ''BOOLEAN'') \<in> set example_schema"
    by (simp add: example_schema_def)
  have b: "typeclass_of ''BOOLEAN'' = BOOLEAN"
    by (simp add: typeclass_of_def)
  have c: "cell_at ([example_frame] ! 0) ''active'' 0 = Some (PyStr ''false'')"
    and c': "cell_at ([example_frame] ! 0) ''active'' 1 = Some (PyStr [])"
    by (simp_all add: cell_at_def example_frame_def)
  from clean_data_boolean[OF wf dist sub kd b c, of example_library]
    clean_data_boolean[OF wf dist sub kd b c', of example_library] c c'
  show ?thesis by (simp add: replace_cell_def)
qed

text \<open>
  Claim C3 as stated fails: the second cell of the column of floats is not-a-number, a null
  value, and in a \<^verbatim>\<open>BOOLEAN\<close> column it comes out \<^verbatim>\<open>True\<close>, not \<^verbatim>\<open>False\<close>.
\<close>

theorem clean_data_boolean_nan_counterexample:
  "cell_at example_float_frame ''bonus'' 1 = Some NaN \<and>
   isnull NaN \<and>
   result_cell (clean_data example_library [example_float_frame] 0 [(''bonus'', ''BOOLEAN'')]) ''bonus'' 1 =
     Some (PyBool True)"
proof -
  have wf: "wf_dataframe ([example_float_frame] ! 0)"
    by (simp add: wf_dataframe_def example_float_frame_def)
  have dist: "distinct (map fst [(''bonus'', ''BOOLEAN'')])"
    and sub: "set (map fst [(''bonus'', ''BOOLEAN'')])
              \<subseteq> set (map fst (columns ([example_float_frame] ! 0)))"
    by (simp_all add: example_float_frame_def)
  have kd: "(''bonus'', ''BOOLEAN'') \<in> set [(''bonus'', ''BOOLEAN'')]"
    by simp
  have b: "typeclass_of ''BOOLEAN'' = BOOLEAN"
    by (simp add: typeclass_of_def)
  have c: "cell_at ([example_float_frame] ! 0) ''bonus'' 1 = Some NaN"
    by (simp add: cell_at_def example_float_frame_def)
  from clean_data_cell[OF wf dist sub kd c, of example_library] obtain series where
    "result_cell (clean_data example_library [example_float_frame] 0 [(''bonus'', ''BOOLEAN'')]) ''bonus'' 1
       = Some (normalize_cell example_library ''bonus'' ''BOOLEAN'' series NaN)"
    by blast
  with normalize_boolean[OF b, of example_library "''bonus''" series NaN] c
  show ?thesis by (simp add: replace_cell_def)
qed

text \<open>
  Claim C1, as amended. A cell whose raw value is the empty string or the string
  \<^verbatim>\<open>Not Provided\<close> is null in the result when the declared type of its column takes
  the integer, floating, date or no branch, and is false when the declared type is
  \<^verbatim>\<open>BOOLEAN\<close>.
\<close>

theorem clean_data_sentinel:
  assumes wf: "wf_dataframe (h ! df)"
    and dist: "distinct (map fst schema)"
    and sub: "set (map fst schema) \<subseteq> set (map fst (columns (h ! df)))"
    and kd: "(k, dtype) \<in> set schema"
    and t: "typeclass_of dtype \<noteq> TEXT"
    and c: "cell_at (h ! df) k i = Some c"
    and s: "c = PyStr [] \<or> c = PyStr ''Not Provided''"
  shows "\<exists>v. result_cell (clean_data lib h df schema) k i = Some v \<and>
             (if typeclass_of dtype = BOOLEAN then v = PyBool False else isnull v)"
proof -
  from clean_data_cell[OF wf dist sub kd c, of lib] obtain series where
    r: "result_cell (clean_data lib h df schema) k i = Some (normalize_cell lib k dtype series c)"
    by blast
  from normalize_sentinel[OF s t, of lib k series] r show ?thesis
    by (cases "typeclass_of dtype = BOOLEAN") simp_all
qed

theorem clean_data_sentinel_witness:
  "\<exists>v. result_cell (clean_data example_library [example_frame] 0 example_schema) ''salary'' 1 = Some v
       \<and> isnull v"
proof -
  have wf: "wf_dataframe ([example_frame] ! 0)"
    using wf_example_frame by simp
  have dist: "distinct (map fst example_schema)"
    and sub: "set (map fst example_schema) \<subseteq> set (map fst (columns ([example_frame] ! 0)))"
    using example_schema_present by simp_all
  have kd: "(''salary'', ''NUMERIC'') \<in> set example_schema"
    by (simp add: example_schema_def)
  have t: "typeclass_of ''NUMERIC'' \<noteq> TEXT" and b: "typeclass_of ''NUMERIC'' \<noteq> BOOLEAN"
    by (simp_all add: typeclass_of_def)
  have c: "cell_at ([example_frame] ! 0) ''salary'' 1 = Some (PyStr ''Not Provided'')"
    by (simp add: cell_at_def example_frame_def)
  have s: "PyStr ''Not Provided'' = PyStr [] \<or> PyStr ''Not Provided'' = PyStr ''Not Provided''"
    by simp
  from clean_data_sentinel[OF wf dist sub kd t c s, of example_library] b
  show ?thesis by simp
qed

text \<open>
  Claim C1 as stated fails: the empty string in the \<^verbatim>\<open>BOOLEAN\<close> column of the example
  frame is \<^verbatim>\<open>False\<close> in the result, which is not null.
\<close>

theorem clean_data_sentinel_boolean_counterexample:
  "cell_at example_frame ''active'' 1 = Some (PyStr []) \<and>
   result_cell (clean_data example_library [example_frame] 0 example_schema) ''active'' 1 =
     Some (PyBool False) \<and>
   \<not> isnull (PyBool False)"
proof -
  have wf: "wf_dataframe ([example_frame] ! 0)"
    using wf_example_frame by simp
  have dist: "distinct (map fst example_schema)"
    and sub: "set (map fst example_schema) \<subseteq> set (map fst (columns ([example_frame] ! 0)))"
    using example_schema_present by simp_all
  have kd: "(''active'', ''BOOLEAN'') \<in> set example_schema"
    by (simp add: example_schema_def)
  have b: "typeclass_of ''BOOLEAN'' = BOOLEAN"
    by (simp add: typeclass_of_def)
  have c: "cell_at ([example_frame] ! 0) ''active'' 1 = Some (PyStr [])"
    by (simp add: cell_at_def example_frame_def)
  from clean_data_cell[OF wf dist sub kd c, of example_library] obtain series where
    "result_cell (clean_data example_library [example_frame] 0 example_schema) ''active'' 1
       = Some (normalize_cell example_library ''active'' ''BOOLEAN'' series (PyStr []))"
    by blast
  with normalize_boolean[OF b, of example_library "''active''" series "PyStr []"] c
  show ?thesis by (simp add: replace_cell_def)
qed

text \<open>
  The \<^verbatim>\<open>TEXT\<close> branch under a library whose \<^verbatim>\<open>astype(str)\<close> keeps a missing element
  missing (the library from its version 3 on): a missing cell and a sentinel are null in the
  result.
\<close>

lemma clean_data_text_null_kept:
  assumes wf: "wf_dataframe (h ! df)"
    and dist: "distinct (map fst schema)"
    and sub: "set (map fst schema) \<subseteq> set (map fst (columns (h ! df)))"
    and kd: "(k, dtype) \<in> set schema"
    and t: "typeclass_of dtype = TEXT"
    and new: "astype_str lib = str_keeps_missing"
    and c: "cell_at (h ! df) k i = Some c"
    and m: "c = PyNone \<or> c = NaN \<or> c = PyStr [] \<or> c = PyStr ''Not Provided''"
  shows "\<exists>v. result_cell (clean_data lib h df schema) k i = Some v \<and> isnull v"
proof -
  from clean_data_cell[OF wf dist sub kd c, of lib] obtain series where
    r: "result_cell (clean_data lib h df schema) k i = Some (normalize_cell lib k dtype series c)"
    by blast
  from m have "isnull (replace_sentinel c)"
    by (auto simp: replace_sentinel_def replace_cell_def)
  with normalize_text_keeps_missing[OF t new, of k series c] r show ?thesis by simp
qed

text \<open>
  Claim C6 on the code, under a library whose \<^verbatim>\<open>astype(str)\<close> takes \<^verbatim>\<open>str\<close> of every
  element (the library before its version 3): in a \<^verbatim>\<open>TEXT\<close> column a cell that is
  \<^verbatim>\<open>None\<close> or one of the two sentinels comes out as the four-letter string
  \<^verbatim>\<open>None\<close>, and a not-a-number cell as the string \<^verbatim>\<open>nan\<close>.
\<close>

theorem clean_data_text_null_stringified:
  assumes wf: "wf_dataframe (h ! df)"
    and dist: "distinct (map fst schema)"
    and sub: "set (map fst schema) \<subseteq> set (map fst (columns (h ! df)))"
    and kd: "(k, dtype) \<in> set schema"
    and t: "typeclass_of dtype = TEXT"
    and old: "astype_str lib = str_elementwise"
    and c: "cell_at (h ! df) k i = Some c"
    and m: "c = PyNone \<or> c = NaN \<or> c = PyStr [] \<or> c = PyStr ''Not Provided''"
  shows "result_cell (clean_data lib h df schema) k i =
           Some (PyStr (if c = NaN then ''nan'' else ''None''))"
proof -
  from clean_data_cell[OF wf dist sub kd c, of lib] obtain series where
    r: "result_cell (clean_data lib h df schema) k i = Some (normalize_cell lib k dtype series c)"
    by blast
  from m have "py_str (replace_sentinel c) = (if c = NaN then ''nan'' else ''None'')"
    by (auto simp: replace_sentinel_def replace_cell_def)
  with normalize_text_elementwise[OF t old, of k series c] r show ?thesis by simp
qed

theorem clean_data_text_null_stringified_witness:
  "astype_str example_library = str_elementwise \<and>
   cell_at example_frame ''name'' 1 = Some (PyStr ''Not Provided'') \<and>
   result_cell (clean_data example_library [example_frame] 0 example_schema) ''name'' 1 =
     Some (PyStr ''None'') \<and>
   cell_at example_frame ''dept'' 1 = Some NaN \<and>
   result_cell (clean_data example_library [example_frame] 0 [(''dept'', ''TEXT'')]) ''dept'' 1 =
     Some (PyStr ''nan'')"
proof -
  have wf: "wf_dataframe ([example_frame] ! 0)"
    using wf_example_frame by simp
  have dist: "distinct (map fst example_schema)"
    and sub: "set (map fst example_schema) \<subseteq> set (map fst (columns ([example_frame] ! 0)))"
    using example_schema_present by simp_all
  have kd: "(''name'', ''TEXT'') \<in> set example_schema"
    by (simp add: example_schema_def)
  have t: "typeclass_of ''TEXT'' = TEXT"
    by (simp add: typeclass_of_def)
  have old: "astype_str example_library = str_elementwise"
    by (simp add: example_library_def)
  have c: "cell_at ([example_frame] ! 0) ''name'' 1 = Some (PyStr ''Not Provided'')"
    by (simp add: cell_at_def example_frame_def)
  have m: "PyStr ''Not Provided'' = PyNone \<or> PyStr ''Not Provided'' = NaN \<or>
           PyStr ''Not Provided'' = PyStr [] \<or> PyStr ''Not Provided'' = PyStr ''Not Provided''"
    by simp
  have dist': "distinct (map fst [(''dept'', ''TEXT'')])"
    and sub': "set (map fst [(''dept'', ''TEXT'')]) \<subseteq> set (map fst (columns ([example_frame] ! 0)))"
    by (simp_all add: example_frame_def)
  have kd': "(''dept'', ''TEXT'') \<in> set [(''dept'', ''TEXT'')]"
    by simp
  have c': "cell_at ([example_frame] ! 0) ''dept'' 1 = Some NaN"
    by (simp add: cell_at_def example_frame_def)
  have m': "NaN = PyNone \<or> NaN = NaN \<or> NaN = PyStr [] \<or> NaN = PyStr ''Not Provided''"
    by simp
  from clean_data_text_null_stringified[OF wf dist sub kd t old c m]
    clean_data_text_null_stringified[OF wf dist' sub' kd' t old c' m'] old c c'
  show ?thesis by simp
qed

end
